theory Spec2Isabelle
  imports Main "HOL-Library.Word" "HOL-Library.Sublist" "HOL-Library.Multiset"
begin

section \<open>JavaScript strings\<close>

text \<open>
  A JavaScript string is a finite sequence of 16-bit code units.  String literals of the
  source are written \<open>js ''...''\<close>.
\<close>

type_synonym jschar = "16 word"
type_synonym jsstring = "jschar list"

definition js :: "string \<Rightarrow> jsstring" where
  "js s = map of_char s"

text \<open>
  \<open>String.prototype.trim\<close> (ECMA-262, TrimString) strips the code units of the
  productions WhiteSpace and LineTerminator from both ends.
\<close>

definition isWhiteSpace :: "jschar \<Rightarrow> bool" where
  "isWhiteSpace c \<longleftrightarrow>
     c = 0x0009 \<or> c = 0x000A \<or> c = 0x000B \<or> c = 0x000C \<or> c = 0x000D \<or> c = 0x0020 \<or>
     c = 0x00A0 \<or> c = 0x1680 \<or> (0x2000 \<le> c \<and> c \<le> 0x200A) \<or> c = 0x2028 \<or>
     c = 0x2029 \<or> c = 0x202F \<or> c = 0x205F \<or> c = 0x3000 \<or> c = 0xFEFF"

definition trim :: "jsstring \<Rightarrow> jsstring" where
  "trim s = rev (dropWhile isWhiteSpace (rev (dropWhile isWhiteSpace s)))"

text \<open>A string is blank when it is empty or consists of white space only.\<close>

definition blank :: "jsstring \<Rightarrow> bool" where
  "blank s \<longleftrightarrow> list_all isWhiteSpace s"


section \<open>Persistence\<close>

text \<open>
  The exceptions that the functions of the platform throw, as values: a function that can
  throw returns \<open>error + 'a\<close>, with \<open>Inl\<close> for the exception.
\<close>

datatype error = URIError | SyntaxError | TypeError

text \<open>
  The values that \<open>JSON.parse\<close> returns.  A number \<open>JNum m e\<close> is the decimal
  \<open>m\<close> times ten to the power \<open>e\<close>, as the text has it; an object is the list of its
  properties in the order in which JavaScript enumerates them.
\<close>

datatype json =
    JNull
  | JBool bool
  | JNum int int
  | JStr jsstring
  | JArr "json list"
  | JObj "(jsstring \<times> json) list"

text \<open>
  \<open>JSON.parse\<close> (ECMA-262, ECMA-404): white space, strings with their escapes, numbers,
  the three literals, arrays and objects.  Each parser returns the value and the text that
  follows it, or \<open>None\<close> where the text is not JSON.
\<close>

definition isJSONWhiteSpace :: "jschar \<Rightarrow> bool" where
  "isJSONWhiteSpace c \<longleftrightarrow> c = 0x09 \<or> c = 0x0A \<or> c = 0x0D \<or> c = 0x20"

definition skip_ws :: "jsstring \<Rightarrow> jsstring" where
  "skip_ws s = dropWhile isJSONWhiteSpace s"

definition isDigit :: "jschar \<Rightarrow> bool" where
  "isDigit c \<longleftrightarrow> 0x30 \<le> c \<and> c \<le> 0x39"

definition hexval :: "jschar \<Rightarrow> nat option" where
  "hexval c =
     (if 0x30 \<le> c \<and> c \<le> 0x39 then Some (unat c - 0x30)
      else if 0x41 \<le> c \<and> c \<le> 0x46 then Some (unat c - 0x41 + 10)
      else if 0x61 \<le> c \<and> c \<le> 0x66 then Some (unat c - 0x61 + 10)
      else None)"

definition hex4 :: "jschar \<Rightarrow> jschar \<Rightarrow> jschar \<Rightarrow> jschar \<Rightarrow> jschar option" where
  "hex4 a b c d =
     (case (hexval a, hexval b, hexval c, hexval d) of
        (Some x, Some y, Some z, Some w) \<Rightarrow> Some (of_nat (x * 4096 + y * 256 + z * 16 + w))
      | _ \<Rightarrow> None)"

definition unescape :: "jschar \<Rightarrow> jschar option" where
  "unescape c =
     (if c = 0x22 then Some 0x22
      else if c = 0x5C then Some 0x5C
      else if c = 0x2F then Some 0x2F
      else if c = 0x62 then Some 0x08
      else if c = 0x66 then Some 0x0C
      else if c = 0x6E then Some 0x0A
      else if c = 0x72 then Some 0x0D
      else if c = 0x74 then Some 0x09
      else None)"

definition cons_fst :: "'a \<Rightarrow> ('a list \<times> 'b) option \<Rightarrow> ('a list \<times> 'b) option" where
  "cons_fst x r = map_option (\<lambda>(xs, rest). (x # xs, rest)) r"

fun parse_chars :: "jsstring \<Rightarrow> (jsstring \<times> jsstring) option" where
  "parse_chars [] = None"
| "parse_chars (c # cs) =
     (if c = 0x22 then Some ([], cs)
      else if c = 0x5C then
        (case cs of
           [] \<Rightarrow> None
         | d # ds \<Rightarrow>
             if d = 0x75 then
               (case ds of
                  h1 # h2 # h3 # h4 # r \<Rightarrow>
                    (case hex4 h1 h2 h3 h4 of
                       None \<Rightarrow> None
                     | Some u \<Rightarrow> cons_fst u (parse_chars r))
                | _ \<Rightarrow> None)
             else
               (case unescape d of
                  None \<Rightarrow> None
                | Some u \<Rightarrow> cons_fst u (parse_chars ds)))
      else if c < 0x20 then None
      else cons_fst c (parse_chars cs))"

fun digits_val :: "int \<Rightarrow> jsstring \<Rightarrow> int" where
  "digits_val acc [] = acc"
| "digits_val acc (c # cs) = digits_val (acc * 10 + (uint c - 0x30)) cs"

definition parse_exponent :: "jsstring \<Rightarrow> (int \<times> jsstring) option" where
  "parse_exponent s =
     (case s of
        [] \<Rightarrow> Some (0, s)
      | c # cs \<Rightarrow>
          if c = 0x65 \<or> c = 0x45 then
            (let neg = (case cs of [] \<Rightarrow> False | d # _ \<Rightarrow> d = 0x2D);
                 ds = (case cs of [] \<Rightarrow> [] | d # r \<Rightarrow> if d = 0x2D \<or> d = 0x2B then r else cs);
                 ep = takeWhile isDigit ds
             in if ep = [] then None
                else Some ((if neg then - digits_val 0 ep else digits_val 0 ep),
                           dropWhile isDigit ds))
          else Some (0, s))"

definition parse_fraction :: "jsstring \<Rightarrow> (jsstring \<times> jsstring) option" where
  "parse_fraction s =
     (case s of
        [] \<Rightarrow> Some ([], s)
      | c # cs \<Rightarrow>
          if c = 0x2E then
            (let fp = takeWhile isDigit cs
             in if fp = [] then None else Some (fp, dropWhile isDigit cs))
          else Some ([], s))"

definition parse_number :: "jsstring \<Rightarrow> (json \<times> jsstring) option" where
  "parse_number s =
     (let neg = (case s of [] \<Rightarrow> False | c # _ \<Rightarrow> c = 0x2D);
          s1 = (if neg then tl s else s);
          ip = takeWhile isDigit s1
      in if ip = [] \<or> (1 < length ip \<and> hd ip = 0x30) then None
         else
           (case parse_fraction (dropWhile isDigit s1) of
              None \<Rightarrow> None
            | Some (fp, s2) \<Rightarrow>
                (case parse_exponent s2 of
                   None \<Rightarrow> None
                 | Some (e, s3) \<Rightarrow>
                     Some (JNum ((if neg then -1 else 1) * digits_val 0 (ip @ fp))
                                (e - int (length fp)), s3))))"

definition parse_literal :: "jsstring \<Rightarrow> (json \<times> jsstring) option" where
  "parse_literal s =
     (if take 4 s = js ''true'' then Some (JBool True, drop 4 s)
      else if take 5 s = js ''false'' then Some (JBool False, drop 5 s)
      else if take 4 s = js ''null'' then Some (JNull, drop 4 s)
      else parse_number s)"

text \<open>
  Defining a property of an object: a property that the object has keeps its place and
  gets the new value; a new property whose name is an array index goes among the array
  indices, in ascending order, before all other properties; any other new property goes to
  the end.  An object of the JSON text gets its members one after the other.
\<close>

type_synonym jsobject = "(jsstring \<times> json) list"

definition array_index :: "jsstring \<Rightarrow> nat option" where
  "array_index k =
     (if k = [] \<or> \<not> list_all isDigit k \<or> (1 < length k \<and> hd k = 0x30) then None
      else if nat (digits_val 0 k) < 4294967295 then Some (nat (digits_val 0 k))
      else None)"

fun insert_index :: "nat \<Rightarrow> jsstring \<Rightarrow> json \<Rightarrow> jsobject \<Rightarrow> jsobject" where
  "insert_index n k v [] = [(k, v)]"
| "insert_index n k v ((k', v') # rest) =
     (case array_index k' of
        Some m \<Rightarrow> if m < n then (k', v') # insert_index n k v rest else (k, v) # (k', v') # rest
      | None \<Rightarrow> (k, v) # (k', v') # rest)"

definition set_prop :: "jsstring \<Rightarrow> json \<Rightarrow> jsobject \<Rightarrow> jsobject" where
  "set_prop k v obj =
     (if k \<in> fst ` set obj then map (\<lambda>(k', v'). if k' = k then (k', v) else (k', v')) obj
      else
        (case array_index k of
           Some n \<Rightarrow> insert_index n k v obj
         | None \<Rightarrow> obj @ [(k, v)]))"

definition object_of_members :: "(jsstring \<times> json) list \<Rightarrow> jsobject" where
  "object_of_members kvs = foldl (\<lambda>obj (k, v). set_prop k v obj) [] kvs"

text \<open>
  The three parsers of values, of the elements of an array after its bracket, and of the
  members of an object after its brace.  The comparisons \<open>length cs < length s\<close> are
  there for the proof of termination; they always hold (lemmas \<open>parse_elements_eq\<close> and
  \<open>parse_members_eq\<close> below).
\<close>

lemma skip_ws_Cons_less: "skip_ws s = c # cs \<Longrightarrow> length cs < length s"
proof -
  assume "skip_ws s = c # cs"
  then have "Suc (length cs) = length (dropWhile isJSONWhiteSpace s)"
    by (simp add: skip_ws_def)
  also have "\<dots> \<le> length s"
    by (rule length_dropWhile_le)
  finally show ?thesis by simp
qed

lemma cons_fst_Some: "cons_fst x r = Some (ys, rest) \<longleftrightarrow> (\<exists>xs. r = Some (xs, rest) \<and> ys = x # xs)"
  by (cases r) (auto simp: cons_fst_def)

lemma parse_chars_shorter: "parse_chars s = Some (x, r) \<Longrightarrow> length r < Suc (length s)"
proof (induction s arbitrary: x rule: parse_chars.induct)
  case 1
  then show ?case by simp
next
  case (2 c cs)
  then show ?case
    by (fastforce simp: cons_fst_Some split: if_splits list.splits option.splits)
qed

lemma skip_ws_le: "length (skip_ws s) \<le> length s"
  by (simp add: skip_ws_def length_dropWhile_le)

function parse_value :: "jsstring \<Rightarrow> (json \<times> jsstring) option"
  and parse_elements :: "jsstring \<Rightarrow> (json list \<times> jsstring) option"
  and parse_members :: "jsstring \<Rightarrow> ((jsstring \<times> json) list \<times> jsstring) option"
where
  "parse_value s =
     (case skip_ws s of
        [] \<Rightarrow> None
      | c # cs \<Rightarrow>
          if c = 0x5B then
            (case skip_ws cs of
               [] \<Rightarrow> None
             | d # ds \<Rightarrow>
                 if d = 0x5D then Some (JArr [], ds)
                 else map_option (\<lambda>(vs, r). (JArr vs, r)) (parse_elements (d # ds)))
          else if c = 0x7B then
            (case skip_ws cs of
               [] \<Rightarrow> None
             | d # ds \<Rightarrow>
                 if d = 0x7D then Some (JObj [], ds)
                 else map_option (\<lambda>(kvs, r). (JObj (object_of_members kvs), r)) (parse_members (d # ds)))
          else if c = 0x22 then map_option (\<lambda>(x, r). (JStr x, r)) (parse_chars cs)
          else parse_literal (c # cs))"
| "parse_elements s =
     (case parse_value s of
        None \<Rightarrow> None
      | Some (v, r) \<Rightarrow>
          (case skip_ws r of
             [] \<Rightarrow> None
           | c # cs \<Rightarrow>
               if c = 0x5D then Some ([v], cs)
               else if c = 0x2C \<and> length cs < length s then cons_fst v (parse_elements cs)
               else None))"
| "parse_members s =
     (case skip_ws s of
        [] \<Rightarrow> None
      | q # s1 \<Rightarrow>
          if q \<noteq> 0x22 then None
          else
            (case parse_chars s1 of
               None \<Rightarrow> None
             | Some (k, s2) \<Rightarrow>
                 (case skip_ws s2 of
                    [] \<Rightarrow> None
                  | c # s3 \<Rightarrow>
                      if c \<noteq> 0x3A then None
                      else
                        (case parse_value s3 of
                           None \<Rightarrow> None
                         | Some (v, r) \<Rightarrow>
                             (case skip_ws r of
                                [] \<Rightarrow> None
                              | e # cs \<Rightarrow>
                                  if e = 0x7D then Some ([(k, v)], cs)
                                  else if e = 0x2C \<and> length cs < length s then
                                    map_option (\<lambda>(kvs, r'). ((k, v) # kvs, r')) (parse_members cs)
                                  else None)))))"
  by pat_completeness auto
termination
  apply (relation "measure (\<lambda>x. case x of
      Inl s \<Rightarrow> 2 * length s
    | Inr (Inl s) \<Rightarrow> 2 * length s + 1
    | Inr (Inr s) \<Rightarrow> 2 * length s + 1)")
  apply (auto dest!: skip_ws_Cons_less parse_chars_shorter)
  done

definition JSON_parse :: "jsstring \<Rightarrow> error + json" where
  "JSON_parse s =
     (case parse_value s of
        None \<Rightarrow> Inl SyntaxError
      | Some (v, r) \<Rightarrow> if skip_ws r = [] then Inr v else Inl SyntaxError)"


text \<open>
  \<open>decodeURIComponent\<close> (ECMA-262, Decode): a \<open>%\<close> starts a group \<open>%XX\<close>; an octet
  below 0x80 is its character, a leading octet announces one to three continuation
  groups, and the octets together must be the UTF-8 form of a code point (not over-long,
  not a surrogate, at most 0x10FFFF), which is put into the result in UTF-16.  Every other
  case is a URIError.
\<close>

fun take_pct :: "jsstring \<Rightarrow> (nat \<times> jsstring) option" where
  "take_pct (p # a # b # r) =
     (if p = 0x25 then
        (case (hexval a, hexval b) of
           (Some x, Some y) \<Rightarrow> Some (16 * x + y, r)
         | _ \<Rightarrow> None)
      else None)"
| "take_pct _ = None"

fun take_cont :: "nat \<Rightarrow> jsstring \<Rightarrow> (nat list \<times> jsstring) option" where
  "take_cont 0 s = Some ([], s)"
| "take_cont (Suc n) s =
     (case take_pct s of
        None \<Rightarrow> None
      | Some (b, r) \<Rightarrow> if 0x80 \<le> b \<and> b \<le> 0xBF then cons_fst b (take_cont n r) else None)"

definition utf8_point :: "nat \<Rightarrow> nat list \<Rightarrow> nat option" where
  "utf8_point b bs =
     (case bs of
        [c1] \<Rightarrow>
          (let v = (b - 0xC0) * 64 + (c1 - 0x80)
           in if v < 0x80 then None else Some v)
      | [c1, c2] \<Rightarrow>
          (let v = (b - 0xE0) * 4096 + (c1 - 0x80) * 64 + (c2 - 0x80)
           in if v < 0x800 \<or> (0xD800 \<le> v \<and> v \<le> 0xDFFF) then None else Some v)
      | [c1, c2, c3] \<Rightarrow>
          (let v = (b - 0xF0) * 262144 + (c1 - 0x80) * 4096 + (c2 - 0x80) * 64 + (c3 - 0x80)
           in if v < 0x10000 \<or> 0x10FFFF < v then None else Some v)
      | _ \<Rightarrow> None)"

definition utf16_encode :: "nat \<Rightarrow> jsstring" where
  "utf16_encode v =
     (if v < 0x10000 then [of_nat v]
      else [of_nat (0xD800 + (v - 0x10000) div 1024), of_nat (0xDC00 + (v - 0x10000) mod 1024)])"

definition lead_count :: "nat \<Rightarrow> nat" where
  "lead_count b =
     (if 0xC0 \<le> b \<and> b \<le> 0xDF then 1
      else if 0xE0 \<le> b \<and> b \<le> 0xEF then 2
      else if 0xF0 \<le> b \<and> b \<le> 0xF7 then 3
      else 0)"

lemma take_pct_shorter: "take_pct s = Some (b, r) \<Longrightarrow> length r < length s"
  by (induction s rule: take_pct.induct) (auto split: if_splits option.splits)

lemma take_cont_shorter: "take_cont n s = Some (bs, r) \<Longrightarrow> length r \<le> length s"
proof (induction n arbitrary: s bs)
  case 0
  then show ?case by simp
next
  case (Suc n)
  then show ?case
    by (fastforce simp: cons_fst_Some split: option.splits if_splits dest: take_pct_shorter)
qed

function decodeURIComponent :: "jsstring \<Rightarrow> error + jsstring" where
  "decodeURIComponent [] = Inr []"
| "decodeURIComponent (c # cs) =
     (if c \<noteq> 0x25 then map_sum id (Cons c) (decodeURIComponent cs)
      else
        (case take_pct (c # cs) of
           None \<Rightarrow> Inl URIError
         | Some (b, r) \<Rightarrow>
             if b < 0x80 then map_sum id (Cons (of_nat b)) (decodeURIComponent r)
             else if lead_count b = 0 then Inl URIError
             else
               (case take_cont (lead_count b) r of
                  None \<Rightarrow> Inl URIError
                | Some (bs, r') \<Rightarrow>
                    (case utf8_point b bs of
                       None \<Rightarrow> Inl URIError
                     | Some v \<Rightarrow> map_sum id (append (utf16_encode v)) (decodeURIComponent r')))))"
  by pat_completeness auto
termination
  by (relation "measure length")
     (auto dest!: take_pct_shorter take_cont_shorter)

text \<open>
  The cookies that the browser holds for the page: name, value, the domain attribute
  (\<open>None\<close> for a cookie that was set without one, as a script of the page sets it), the
  path, and the time at which the cookie expires, in milliseconds.  The browser holds one
  cookie for a name, a domain and a path; cookies of one name with different domains or
  paths stand side by side.  The jar lists the cookies in the order of their creation.

  Reading \<open>document.cookie\<close> at the time \<open>now\<close> gives the cookies that have not
  expired, those with longer paths first and otherwise in the order of their creation
  (RFC 6265, 5.4), each as \<open>name=value\<close> (as its value alone when it has no name), joined
  by \<open>; \<close>.  \<open>join\<close> and \<open>split\<close> are \<open>Array.prototype.join\<close> and
  \<open>String.prototype.split\<close> with a separator.
\<close>

record cookie =
  cname :: jsstring
  cvalue :: jsstring
  cdomain :: "jsstring option"
  cpath :: jsstring
  expiry :: int

type_synonym jar = "cookie list"

fun join :: "'a list \<Rightarrow> 'a list list \<Rightarrow> 'a list" where
  "join sep [] = []"
| "join sep [x] = x"
| "join sep (x # y # ys) = x @ sep @ join sep (y # ys)"

function split_acc :: "'a list \<Rightarrow> 'a list \<Rightarrow> 'a list \<Rightarrow> 'a list list" where
  "split_acc sep acc s =
     (if sep = [] then map (\<lambda>c. [c]) s
      else if s = [] then [rev acc]
      else if take (length sep) s = sep then rev acc # split_acc sep [] (drop (length sep) s)
      else split_acc sep (hd s # acc) (tl s))"
  by pat_completeness auto
termination
  by (relation "measure (\<lambda>(sep, acc, s). length s)") auto

declare split_acc.simps [simp del]

definition split :: "'a list \<Rightarrow> 'a list \<Rightarrow> 'a list list" where
  "split s sep = split_acc sep [] s"

definition cookie_text :: "cookie \<Rightarrow> jsstring" where
  "cookie_text c = (if cname c = [] then cvalue c else cname c @ js ''='' @ cvalue c)"

definition document_cookie :: "int \<Rightarrow> jar \<Rightarrow> jsstring" where
  "document_cookie now jar =
     join (js ''; '')
       (map cookie_text
          (sort_key (\<lambda>c. - int (length (cpath c))) (filter (\<lambda>c. now < expiry c) jar)))"

text \<open>
  \<open>getCookie\<close>: the first cookie whose text before the first \<open>=\<close> is the name; its
  value is the rest, decoded.  \<open>null\<close> is \<open>None\<close>.
\<close>

fun getCookie_loop :: "jsstring \<Rightarrow> jsstring list \<Rightarrow> error + jsstring option" where
  "getCookie_loop name [] = Inr None"
| "getCookie_loop name (cookie # cookies) =
     (case split cookie (js ''='') of
        [] \<Rightarrow> getCookie_loop name cookies
      | key # rest \<Rightarrow>
          if key = name then map_sum id Some (decodeURIComponent (join (js ''='') rest))
          else getCookie_loop name cookies)"

definition getCookie :: "jsstring \<Rightarrow> int \<Rightarrow> jar \<Rightarrow> error + jsstring option" where
  "getCookie name now jar =
     (let dc = document_cookie now jar;
          cookies = (if dc \<noteq> [] then split dc (js ''; '') else [])
      in getCookie_loop name cookies)"

text \<open>
  \<open>loadTodosFromCookie\<close>.  The callback of \<open>map\<close> builds
  \<open>{...t, completed: Boolean(t.completed)}\<close>: the own enumerable properties of \<open>t\<close>
  (the members of an object, the indices of an array or of a string, none for a number or
  a boolean), with \<open>completed\<close> set to the truth value of \<open>t.completed\<close>.  Reading
  \<open>t.completed\<close> throws a TypeError when \<open>t\<close> is \<open>null\<close>.  \<open>load_try\<close> is
  the body of the \<open>try\<close>, \<open>loadTodosFromCookie\<close> adds the \<open>catch\<close>.
\<close>

function to_decimal :: "nat \<Rightarrow> jsstring" where
  "to_decimal n = (if n < 10 then [0x30 + of_nat n] else to_decimal (n div 10) @ [0x30 + of_nat (n mod 10)])"
  by pat_completeness auto
termination
  by (relation "measure id") auto

definition ToBoolean :: "json option \<Rightarrow> bool" where
  "ToBoolean x =
     (case x of
        None \<Rightarrow> False
      | Some JNull \<Rightarrow> False
      | Some (JBool b) \<Rightarrow> b
      | Some (JNum m e) \<Rightarrow> \<not> (m = 0 \<or> (e < 0 \<and> \<bar>m\<bar> * 2 ^ 1075 \<le> 10 ^ nat (- e)))
      | Some (JStr s) \<Rightarrow> s \<noteq> []
      | Some (JArr vs) \<Rightarrow> True
      | Some (JObj kvs) \<Rightarrow> True)"

definition own_props :: "json \<Rightarrow> jsobject" where
  "own_props t =
     (case t of
        JObj kvs \<Rightarrow> kvs
      | JArr vs \<Rightarrow> zip (map to_decimal [0..<length vs]) vs
      | JStr s \<Rightarrow> zip (map to_decimal [0..<length s]) (map (\<lambda>c. JStr [c]) s)
      | _ \<Rightarrow> [])"

definition get_completed :: "json \<Rightarrow> json option" where
  "get_completed t = (case t of JObj kvs \<Rightarrow> map_of kvs (js ''completed'') | _ \<Rightarrow> None)"

definition coerce_completed :: "json \<Rightarrow> error + jsobject" where
  "coerce_completed t =
     (if t = JNull then Inl TypeError
      else Inr (set_prop (js ''completed'') (JBool (ToBoolean (get_completed t))) (own_props t)))"

fun map_throw :: "('a \<Rightarrow> error + 'b) \<Rightarrow> 'a list \<Rightarrow> error + 'b list" where
  "map_throw f [] = Inr []"
| "map_throw f (x # xs) =
     (case f x of
        Inl e \<Rightarrow> Inl e
      | Inr y \<Rightarrow> (case map_throw f xs of Inl e \<Rightarrow> Inl e | Inr ys \<Rightarrow> Inr (y # ys)))"

definition COOKIE_NAME :: jsstring where
  "COOKIE_NAME = js ''react_todo_list''"


definition load_try :: "int \<Rightarrow> jar \<Rightarrow> error + jsobject list" where
  "load_try now jar =
     (case getCookie COOKIE_NAME now jar of
        Inl e \<Rightarrow> Inl e
      | Inr None \<Rightarrow> Inr []
      | Inr (Some raw) \<Rightarrow>
          if raw = [] then Inr []
          else
            (case JSON_parse raw of
               Inl e \<Rightarrow> Inl e
             | Inr parsed \<Rightarrow>
                 (case parsed of
                    JArr vs \<Rightarrow> map_throw coerce_completed vs
                  | _ \<Rightarrow> Inr [])))"

definition loadTodosFromCookie :: "int \<Rightarrow> jar \<Rightarrow> jsobject list" where
  "loadTodosFromCookie now jar = (case load_try now jar of Inl e \<Rightarrow> [] | Inr r \<Rightarrow> r)"


section \<open>The task list of \<open>App.tsx\<close>\<close>

text \<open>
  \<^verbatim>\<open>type Todo = { id: string; title: string; completed: boolean; createdAt: string }\<close>
\<close>

record Todo =
  id_t :: jsstring
  title :: jsstring
  completed :: bool
  createdAt :: jsstring

datatype Filter = All | Active | Completed

text \<open>The five \<open>useState\<close> cells of the component.\<close>

record App =
  todos :: "Todo list"
  newTitle :: jsstring
  editingId :: "jsstring option"
  editingTitle :: jsstring
  filter_mode :: Filter

text \<open>
  \<open>filteredTodos\<close>: the two \<open>if\<close>s of the source in their order, then the
  list itself.
\<close>

definition filteredTodos :: "Todo list \<Rightarrow> Filter \<Rightarrow> Todo list" where
  "filteredTodos ts f =
     (if f = Active then filter (\<lambda>t. \<not> completed t) ts
      else if f = Completed then filter (\<lambda>t. completed t) ts
      else ts)"

text \<open>
  \<open>handleAddTodo\<close>.  The two values the handler takes from the platform, the result of
  \<open>crypto.randomUUID()\<close> and of \<open>new Date().toISOString()\<close>, are arguments.
  \<open>!title\<close> holds exactly for the empty string.
\<close>

definition handleAddTodo :: "jsstring \<Rightarrow> jsstring \<Rightarrow> App \<Rightarrow> App" where
  "handleAddTodo uuid now st =
     (let t = trim (newTitle st) in
      if t = [] then st
      else st\<lparr>todos := \<lparr>id_t = uuid, title = t, completed = False, createdAt = now\<rparr> # todos st,
              newTitle := []\<rparr>)"

definition handleToggleTodo :: "jsstring \<Rightarrow> App \<Rightarrow> App" where
  "handleToggleTodo i st =
     st\<lparr>todos := map (\<lambda>t. if id_t t = i then t\<lparr>completed := \<not> completed t\<rparr> else t) (todos st)\<rparr>"

definition handleDeleteTodo :: "jsstring \<Rightarrow> App \<Rightarrow> App" where
  "handleDeleteTodo i st = st\<lparr>todos := filter (\<lambda>t. id_t t \<noteq> i) (todos st)\<rparr>"

definition startEditTodo :: "Todo \<Rightarrow> App \<Rightarrow> App" where
  "startEditTodo t st = st\<lparr>editingId := Some (id_t t), editingTitle := title t\<rparr>"

definition handleEditSubmit :: "jsstring \<Rightarrow> App \<Rightarrow> App" where
  "handleEditSubmit i st =
     (let t = trim (editingTitle st) in
      if t = [] then st\<lparr>editingId := None, editingTitle := []\<rparr>
      else st\<lparr>todos := map (\<lambda>x. if id_t x = i then x\<lparr>title := t\<rparr> else x) (todos st),
              editingId := None, editingTitle := []\<rparr>)"

definition handleClearCompleted :: "App \<Rightarrow> App" where
  "handleClearCompleted st = st\<lparr>todos := filter (\<lambda>t. \<not> completed t) (todos st)\<rparr>"

definition activeCount :: "Todo list \<Rightarrow> nat" where
  "activeCount ts = length (filter (\<lambda>t. \<not> completed t) ts)"

text \<open>
  The operations of the task store as the specification names them.  \<open>add\<close> and
  \<open>rename\<close> take the text that the input field holds when the handler runs.
\<close>

definition add :: "jsstring \<Rightarrow> jsstring \<Rightarrow> jsstring \<Rightarrow> Todo list \<Rightarrow> Todo list" where
  "add uuid now s ts =
     todos (handleAddTodo uuid now
       \<lparr>todos = ts, newTitle = s, editingId = None, editingTitle = [], filter_mode = All\<rparr>)"

definition toggle :: "jsstring \<Rightarrow> Todo list \<Rightarrow> Todo list" where
  "toggle i ts =
     todos (handleToggleTodo i
       \<lparr>todos = ts, newTitle = [], editingId = None, editingTitle = [], filter_mode = All\<rparr>)"

definition rename :: "jsstring \<Rightarrow> jsstring \<Rightarrow> Todo list \<Rightarrow> Todo list" where
  "rename i s ts =
     todos (handleEditSubmit i
       \<lparr>todos = ts, newTitle = [], editingId = Some i, editingTitle = s, filter_mode = All\<rparr>)"

definition remove :: "jsstring \<Rightarrow> Todo list \<Rightarrow> Todo list" where
  "remove i ts =
     todos (handleDeleteTodo i
       \<lparr>todos = ts, newTitle = [], editingId = None, editingTitle = [], filter_mode = All\<rparr>)"

definition clearCompleted :: "Todo list \<Rightarrow> Todo list" where
  "clearCompleted ts =
     todos (handleClearCompleted
       \<lparr>todos = ts, newTitle = [], editingId = None, editingTitle = [], filter_mode = All\<rparr>)"

datatype Op =
    Add jsstring jsstring jsstring
  | Toggle jsstring
  | Rename jsstring jsstring
  | Remove jsstring
  | ClearCompleted

fun apply_op :: "Op \<Rightarrow> Todo list \<Rightarrow> Todo list" where
  "apply_op (Add uuid now s) ts = add uuid now s ts"
| "apply_op (Toggle i) ts = toggle i ts"
| "apply_op (Rename i s) ts = rename i s ts"
| "apply_op (Remove i) ts = remove i ts"
| "apply_op ClearCompleted ts = clearCompleted ts"

fun run :: "Op list \<Rightarrow> Todo list \<Rightarrow> Todo list" where
  "run [] ts = ts"
| "run (p # ps) ts = run ps (apply_op p ts)"

text \<open>
  Every \<open>Add\<close> of the sequence comes with an id that no task of the list has at the
  moment the operation runs.
\<close>

fun fresh_ids :: "Op list \<Rightarrow> Todo list \<Rightarrow> bool" where
  "fresh_ids [] ts \<longleftrightarrow> True"
| "fresh_ids (Add uuid now s # ps) ts \<longleftrightarrow>
     uuid \<notin> set (map id_t ts) \<and> fresh_ids ps (add uuid now s ts)"
| "fresh_ids (p # ps) ts \<longleftrightarrow> fresh_ids ps (apply_op p ts)"


section \<open>Saving\<close>
















text \<open>
  Assigning to \<open>document.cookie\<close>.  The browser takes the text up to the first
  \<open>;\<close> as the pair, splits it at the first \<open>=\<close> and strips spaces and tabs
  from both parts; a pair without \<open>=\<close> is a value without a name (RFC 6265, 5.2).  A
  pair of more than 4096 octets is ignored, and so is the empty pair.  A pair with an
  expiry time in the past removes the cookie of that name, domain and path.  Any other pair
  replaces the cookie of that name, domain and path, or is added as the youngest cookie when
  there is none.  The replaced cookie keeps its place in the order of creation (RFC 6265,
  5.3); browsers that give a cookie whose value has changed a new creation time move it to
  the end, and \<open>renews\<close> says whether the browser is one of them.

  The attributes of the assignment are the parsed expiry time (\<open>toUTCString\<close> writes
  whole seconds) and the path; \<open>setCookie\<close> writes the path \<open>/\<close> and no domain.
\<close>

definition isWSP :: "jschar \<Rightarrow> bool" where
  "isWSP c \<longleftrightarrow> c = 0x20 \<or> c = 0x09"

definition strip_wsp :: "jsstring \<Rightarrow> jsstring" where
  "strip_wsp s = rev (dropWhile isWSP (rev (dropWhile isWSP s)))"

definition octets :: "jsstring \<Rightarrow> nat" where
  "octets s = sum_list (map (\<lambda>c. if c < 0x80 then 1 else if c < 0x800 then 2 else 3) s)"

definition max_cookie_size :: nat where
  "max_cookie_size = 4096"

definition same_cookie :: "cookie \<Rightarrow> cookie \<Rightarrow> bool" where
  "same_cookie a b \<longleftrightarrow> cname a = cname b \<and> cdomain a = cdomain b \<and> cpath a = cpath b"

definition store_cookie :: "bool \<Rightarrow> cookie \<Rightarrow> jar \<Rightarrow> jar" where
  "store_cookie renews c jar =
     (case find (same_cookie c) jar of
        None \<Rightarrow> jar @ [c]
      | Some old \<Rightarrow>
          if renews \<and> cvalue old \<noteq> cvalue c then filter (\<lambda>x. \<not> same_cookie c x) jar @ [c]
          else map (\<lambda>x. if same_cookie c x then c else x) jar)"

definition document_cookie_assign ::
    "bool \<Rightarrow> jsstring \<Rightarrow> jsstring \<Rightarrow> int \<Rightarrow> int \<Rightarrow> jar \<Rightarrow> jar" where
  "document_cookie_assign renews pair path expires now jar =
     (let p = takeWhile (\<lambda>c. c \<noteq> 0x3B) pair;
          n = (if 0x3D \<in> set p then strip_wsp (takeWhile (\<lambda>c. c \<noteq> 0x3D) p) else []);
          v = (if 0x3D \<in> set p then strip_wsp (tl (dropWhile (\<lambda>c. c \<noteq> 0x3D) p))
               else strip_wsp p);
          c = \<lparr>cname = n, cvalue = v, cdomain = None, cpath = path, expiry = expires\<rparr>
      in if max_cookie_size < octets n + octets v \<or> (n = [] \<and> v = []) then jar
         else if expires \<le> now then filter (\<lambda>x. \<not> same_cookie c x) jar
         else store_cookie renews c jar)"




section \<open>Tasks as JavaScript objects\<close>

text \<open>
  The object that \<open>handleAddTodo\<close> builds for a task: the four properties in the order
  of the object literal.
\<close>

definition todo_obj :: "Todo \<Rightarrow> jsobject" where
  "todo_obj t =
     [(js ''id'', JStr (id_t t)), (js ''title'', JStr (title t)),
      (js ''completed'', JBool (completed t)), (js ''createdAt'', JStr (createdAt t))]"


section \<open>Predicates of the statements\<close>

text \<open>No title of the list is empty or white space only.\<close>

definition titles_ok :: "Todo list \<Rightarrow> bool" where
  "titles_ok ts \<longleftrightarrow> list_all (\<lambda>t. \<not> blank (title t)) ts"

text \<open>
  No cookie of the jar has a \<open>;\<close> in its name or in its value: the browser ends the
  pair of a cookie at the first \<open>;\<close>, so every jar that assignments have filled is
  such a jar (lemma \<open>assign_jar_ok\<close>).
\<close>

definition jar_ok :: "jar \<Rightarrow> bool" where
  "jar_ok jar \<longleftrightarrow> list_all (\<lambda>c. 0x3B \<notin> set (cookie_text c)) jar"










section \<open>The JSON parser consumes its input\<close>

lemma takeWhile_dropWhile_shorter:
  "takeWhile P s \<noteq> [] \<Longrightarrow> length (dropWhile P s) < length s"
proof -
  assume "takeWhile P s \<noteq> []"
  then have "0 < length (takeWhile P s)"
    by simp
  moreover have "length (takeWhile P s) + length (dropWhile P s) = length s"
    by (simp flip: length_append)
  ultimately show ?thesis
    by linarith
qed

lemma parse_fraction_le: "parse_fraction s = Some (fp, r) \<Longrightarrow> length r \<le> length s"
  using length_dropWhile_le [of isDigit "tl s"]
  by (auto simp: parse_fraction_def Let_def split: list.splits if_splits)

lemma parse_exponent_le: "parse_exponent s = Some (e, r) \<Longrightarrow> length r \<le> length s"
proof (cases s)
  case Nil
  then show "parse_exponent s = Some (e, r) \<Longrightarrow> length r \<le> length s"
    by (simp add: parse_exponent_def)
next
  case (Cons c cs)
  have "length (dropWhile isDigit cs) \<le> length cs"
    and "length (dropWhile isDigit (tl cs)) \<le> length (tl cs)"
    by (rule length_dropWhile_le)+
  with Cons show "parse_exponent s = Some (e, r) \<Longrightarrow> length r \<le> length s"
    by (auto simp: parse_exponent_def Let_def split: list.splits if_splits)
qed

lemma parse_number_shorter: "parse_number s = Some (v, r) \<Longrightarrow> length r < length s"
proof -
  assume a: "parse_number s = Some (v, r)"
  define s1 where "s1 = (if (case s of [] \<Rightarrow> False | c # _ \<Rightarrow> c = 0x2D) then tl s else s)"
  have l: "length s1 \<le> length s"
    by (simp add: s1_def)
  from a have ne: "takeWhile isDigit s1 \<noteq> []"
    by (auto simp: parse_number_def Let_def s1_def split: if_splits)
  from a ne obtain fp s2 e where f: "parse_fraction (dropWhile isDigit s1) = Some (fp, s2)"
    and x: "parse_exponent s2 = Some (e, r)"
    by (auto simp: parse_number_def Let_def s1_def split: if_splits option.splits)
  from ne have "length (dropWhile isDigit s1) < length s1"
    by (rule takeWhile_dropWhile_shorter)
  with parse_fraction_le [OF f] parse_exponent_le [OF x] l show ?thesis
    by linarith
qed

lemma parse_literal_shorter: "parse_literal s = Some (v, r) \<Longrightarrow> length r < length s"
proof -
  have t: "\<And>n w. take n s = w \<Longrightarrow> w \<noteq> [] \<Longrightarrow> length (drop n s) < length s"
    by (cases s) auto
  assume "parse_literal s = Some (v, r)"
  then show ?thesis
    using t [of 4 "js ''true''"] t [of 5 "js ''false''"] t [of 4 "js ''null''"]
    by (auto simp: parse_literal_def js_def split: if_splits dest: parse_number_shorter)
qed

lemma skip_ws_le': "skip_ws s = t \<Longrightarrow> length t \<le> length s"
  using skip_ws_le [of s] by simp

lemma parse_shorter:
  "(\<forall>v r. parse_value s = Some (v, r) \<longrightarrow> length r < length s)"
  "(\<forall>vs r. parse_elements s' = Some (vs, r) \<longrightarrow> length r < length s')"
  "(\<forall>kvs r. parse_members s'' = Some (kvs, r) \<longrightarrow> length r < length s'')"
proof (induction s and s' and s'' rule: parse_value_parse_elements_parse_members.induct)
  case (1 s)
  show ?case
  proof (intro allI impI)
    fix v r
    assume a: "parse_value s = Some (v, r)"
    then obtain c cs where sk: "skip_ws s = c # cs"
      by (subst (asm) parse_value.simps) (auto split: list.splits)
    then have l: "length cs < length s"
      by (rule skip_ws_Cons_less)
    show "length r < length s"
    proof (cases "c = 0x5B")
      case True
      show ?thesis
      proof (cases "skip_ws cs")
        case Nil
        with a sk True show ?thesis
          by (subst (asm) parse_value.simps) simp
      next
        case (Cons d ds)
        then have l2: "length (d # ds) \<le> length cs"
          by (rule skip_ws_le')
        show ?thesis
        proof (cases "d = 0x5D")
          case True
          with a sk \<open>c = 0x5B\<close> Cons l l2 show ?thesis
            by (subst (asm) parse_value.simps) auto
        next
          case False
          with a sk \<open>c = 0x5B\<close> Cons obtain vs where "parse_elements (d # ds) = Some (vs, r)"
            by (subst (asm) parse_value.simps) auto
          with "1.IH"(1) [OF sk \<open>c = 0x5B\<close> Cons False] have "length r < length (d # ds)"
            by blast
          with l l2 show ?thesis
            by linarith
        qed
      qed
    next
      case False
      note nb = this
      show ?thesis
      proof (cases "c = 0x7B")
        case True
        show ?thesis
        proof (cases "skip_ws cs")
          case Nil
          with a sk nb True show ?thesis
            by (subst (asm) parse_value.simps) simp
        next
          case (Cons d ds)
          then have l2: "length (d # ds) \<le> length cs"
            by (rule skip_ws_le')
          show ?thesis
          proof (cases "d = 0x7D")
            case True
            with a sk nb \<open>c = 0x7B\<close> Cons l l2 show ?thesis
              by (subst (asm) parse_value.simps) auto
          next
            case False
            with a sk nb \<open>c = 0x7B\<close> Cons obtain kvs where "parse_members (d # ds) = Some (kvs, r)"
              by (subst (asm) parse_value.simps) auto
            with "1.IH"(2) [OF sk nb \<open>c = 0x7B\<close> Cons False] have "length r < length (d # ds)"
              by blast
            with l l2 show ?thesis
              by linarith
          qed
        qed
      next
        case False
        note no = this
        show ?thesis
        proof (cases "c = 0x22")
          case True
          with a sk nb no obtain x where "parse_chars cs = Some (x, r)"
            by (subst (asm) parse_value.simps) auto
          then have "length r < Suc (length cs)"
            by (rule parse_chars_shorter)
          with l show ?thesis
            by linarith
        next
          case False
          with a sk nb no have "parse_literal (c # cs) = Some (v, r)"
            by (subst (asm) parse_value.simps) simp
          then have "length r < length (c # cs)"
            by (rule parse_literal_shorter)
          with l show ?thesis
            by simp
        qed
      qed
    qed
  qed
next
  case (2 s)
  show ?case
  proof (intro allI impI)
    fix vs r
    assume a: "parse_elements s = Some (vs, r)"
    then obtain v r1 where pv: "parse_value s = Some (v, r1)"
      by (subst (asm) parse_elements.simps) (auto split: option.splits)
    with "2.IH"(1) have l1: "length r1 < length s"
      by blast
    from a pv obtain c cs where sk: "skip_ws r1 = c # cs"
      by (subst (asm) parse_elements.simps) (auto split: list.splits)
    then have l2: "length cs < length r1"
      by (rule skip_ws_Cons_less)
    show "length r < length s"
    proof (cases "c = 0x5D")
      case True
      with a pv sk l1 l2 show ?thesis
        by (subst (asm) parse_elements.simps) auto
    next
      case False
      with a pv sk have c: "c = 0x2C \<and> length cs < length s"
        by (subst (asm) parse_elements.simps) (auto split: if_splits)
      with a pv sk False obtain ws where "parse_elements cs = Some (ws, r)"
        by (subst (asm) parse_elements.simps) (auto simp: cons_fst_Some)
      with "2.IH"(2) [OF pv refl sk False c] have "length r < length cs"
        by blast
      with c show ?thesis
        by linarith
    qed
  qed
next
  case (3 s)
  show ?case
  proof (intro allI impI)
    fix kvs r
    assume a: "parse_members s = Some (kvs, r)"
    then obtain q s1 where sk1: "skip_ws s = q # s1"
      by (subst (asm) parse_members.simps) (auto split: list.splits)
    with a have q: "\<not> q \<noteq> 0x22"
      by (subst (asm) parse_members.simps) (auto split: if_splits)
    from a sk1 q obtain k s2 where pc: "parse_chars s1 = Some (k, s2)"
      by (subst (asm) parse_members.simps) (auto split: option.splits)
    from a sk1 q pc obtain c s3 where sk2: "skip_ws s2 = c # s3"
      by (subst (asm) parse_members.simps) (auto split: list.splits)
    with a sk1 q pc have c: "\<not> c \<noteq> 0x3A"
      by (subst (asm) parse_members.simps) (auto split: if_splits)
    from a sk1 q pc sk2 c obtain v r1 where pv: "parse_value s3 = Some (v, r1)"
      by (subst (asm) parse_members.simps) (auto split: option.splits)
    from a sk1 q pc sk2 c pv obtain e cs where sk3: "skip_ws r1 = e # cs"
      by (subst (asm) parse_members.simps) (auto split: list.splits)
    have l1: "length s1 < length s"
      using sk1 by (rule skip_ws_Cons_less)
    have l2: "length s2 < Suc (length s1)"
      using pc by (rule parse_chars_shorter)
    have l3: "length s3 < length s2"
      using sk2 by (rule skip_ws_Cons_less)
    have l4: "length r1 < length s3"
      using "3.IH"(1) [OF sk1 q pc refl sk2 c] pv by blast
    have l5: "length cs < length r1"
      using sk3 by (rule skip_ws_Cons_less)
    show "length r < length s"
    proof (cases "e = 0x7D")
      case True
      with a sk1 q pc sk2 c pv sk3 have "r = cs"
        by (subst (asm) parse_members.simps) auto
      with l1 l2 l3 l4 l5 show ?thesis
        by simp
    next
      case False
      with a sk1 q pc sk2 c pv sk3 have g: "e = 0x2C \<and> length cs < length s"
        by (subst (asm) parse_members.simps) (auto split: if_splits)
      with a sk1 q pc sk2 c pv sk3 False obtain ws where "parse_members cs = Some (ws, r)"
        by (subst (asm) parse_members.simps) auto
      with "3.IH"(2) [OF sk1 q pc refl sk2 c pv refl sk3 False g] have "length r < length cs"
        by blast
      with g show ?thesis
        by linarith
    qed
  qed
qed

text \<open>
  The comparisons of lengths in \<open>parse_elements\<close> and \<open>parse_members\<close> serve the
  proof of termination only: they always hold, and the two functions satisfy the equations
  without them.
\<close>

lemma parse_elements_eq:
  "parse_elements s =
     (case parse_value s of
        None \<Rightarrow> None
      | Some (v, r) \<Rightarrow>
          (case skip_ws r of
             [] \<Rightarrow> None
           | c # cs \<Rightarrow>
               if c = 0x5D then Some ([v], cs)
               else if c = 0x2C then cons_fst v (parse_elements cs)
               else None))"
proof (cases "parse_value s")
  case None
  then show ?thesis
    by (subst parse_elements.simps) simp
next
  case (Some p)
  obtain v r where p: "p = (v, r)"
    by (cases p)
  with Some parse_shorter(1) [of s] have l: "length r < length s"
    by blast
  show ?thesis
  proof (cases "skip_ws r")
    case Nil
    with Some p show ?thesis
      by (subst parse_elements.simps) simp
  next
    case (Cons c cs)
    then have "length cs < length r"
      by (rule skip_ws_Cons_less)
    with l have "length cs < length s"
      by linarith
    with Some p Cons show ?thesis
      by (subst parse_elements.simps) simp
  qed
qed


lemma parse_members_eq:
  "parse_members s =
     (case skip_ws s of
        [] \<Rightarrow> None
      | q # s1 \<Rightarrow>
          if q \<noteq> 0x22 then None
          else
            (case parse_chars s1 of
               None \<Rightarrow> None
             | Some (k, s2) \<Rightarrow>
                 (case skip_ws s2 of
                    [] \<Rightarrow> None
                  | c # s3 \<Rightarrow>
                      if c \<noteq> 0x3A then None
                      else
                        (case parse_value s3 of
                           None \<Rightarrow> None
                         | Some (v, r) \<Rightarrow>
                             (case skip_ws r of
                                [] \<Rightarrow> None
                              | e # cs \<Rightarrow>
                                  if e = 0x7D then Some ([(k, v)], cs)
                                  else if e = 0x2C then
                                    map_option (\<lambda>(kvs, r'). ((k, v) # kvs, r')) (parse_members cs)
                                  else None)))))"
proof -
  have g: "length cs < length s"
    if "skip_ws s = q # s1" and "parse_chars s1 = Some (k, s2)" and "skip_ws s2 = c # s3"
      and "parse_value s3 = Some (v, r)" and "skip_ws r = e # cs"
    for q s1 k s2 c s3 v r e cs
  proof -
    have "length s1 < length s"
      using that(1) by (rule skip_ws_Cons_less)
    moreover have "length s2 < Suc (length s1)"
      using that(2) by (rule parse_chars_shorter)
    moreover have "length s3 < length s2"
      using that(3) by (rule skip_ws_Cons_less)
    moreover have "length r < length s3"
      using parse_shorter(1) [of s3] that(4) by blast
    moreover have "length cs < length r"
      using that(5) by (rule skip_ws_Cons_less)
    ultimately show ?thesis
      by linarith
  qed
  show ?thesis
    by (subst parse_members.simps)
      (auto split: list.splits option.splits simp del: parse_value.simps parse_members.simps
        dest: g)
qed


section \<open>Basic facts\<close>

lemma add_eq:
  "add uuid now s ts =
     (if trim s = [] then ts
      else \<lparr>id_t = uuid, title = trim s, completed = False, createdAt = now\<rparr> # ts)"
  by (simp add: add_def handleAddTodo_def Let_def)

lemma toggle_eq:
  "toggle i ts = map (\<lambda>t. if id_t t = i then t\<lparr>completed := \<not> completed t\<rparr> else t) ts"
  by (simp add: toggle_def handleToggleTodo_def)

lemma rename_eq:
  "rename i s ts =
     (if trim s = [] then ts else map (\<lambda>x. if id_t x = i then x\<lparr>title := trim s\<rparr> else x) ts)"
  by (simp add: rename_def handleEditSubmit_def Let_def)

lemma remove_eq: "remove i ts = filter (\<lambda>t. id_t t \<noteq> i) ts"
  by (simp add: remove_def handleDeleteTodo_def)

lemma clearCompleted_eq: "clearCompleted ts = filter (\<lambda>t. \<not> completed t) ts"
  by (simp add: clearCompleted_def handleClearCompleted_def)

lemma ids_toggle: "map id_t (toggle i ts) = map id_t ts"
  by (induction ts) (simp_all add: toggle_eq)

lemma ids_rename: "map id_t (rename i s ts) = map id_t ts"
  by (induction ts) (simp_all add: rename_eq)

lemma ids_remove: "map id_t (remove i ts) = filter (\<lambda>j. j \<noteq> i) (map id_t ts)"
  by (induction ts) (simp_all add: remove_eq)

lemma ids_clearCompleted: "distinct (map id_t ts) \<Longrightarrow> distinct (map id_t (clearCompleted ts))"
  by (simp add: clearCompleted_eq distinct_map_filter)

lemma apply_op_distinct:
  "distinct (map id_t ts) \<Longrightarrow> fresh_ids [p] ts \<Longrightarrow> distinct (map id_t (apply_op p ts))"
  by (cases p) (simp_all add: add_eq ids_toggle ids_rename ids_remove ids_clearCompleted)

lemma fresh_ids_Cons: "fresh_ids (p # ps) ts \<Longrightarrow> fresh_ids [p] ts \<and> fresh_ids ps (apply_op p ts)"
  by (cases p) simp_all

lemma trim_not_blank: "trim s \<noteq> [] \<Longrightarrow> \<not> blank (trim s)"
proof -
  assume ne: "trim s \<noteq> []"
  let ?d = "dropWhile isWhiteSpace (rev (dropWhile isWhiteSpace s))"
  from ne have "?d \<noteq> []" by (simp add: trim_def)
  then have "\<not> isWhiteSpace (hd ?d)" by (rule hd_dropWhile)
  moreover from \<open>?d \<noteq> []\<close> have "hd ?d \<in> set ?d" by simp
  ultimately have "\<not> list_all isWhiteSpace ?d" by (auto simp: list_all_iff)
  then have "\<not> list_all isWhiteSpace (rev ?d)" by (simp add: list_all_iff)
  then show ?thesis by (simp add: blank_def trim_def)
qed

lemma blank_Nil: "blank []"
  by (simp add: blank_def)


section \<open>The task store\<close>

text \<open>
  C5.  \<open>add\<close> trims the text.  When the trimmed text is empty the list stays as it is.
  Otherwise one task is put in front of the list: its title is the trimmed text, its id the
  value that \<open>crypto.randomUUID()\<close> gave, \<open>completed\<close> is false and \<open>createdAt\<close>
  is the current time; the tasks that were in the list follow it, unchanged and in their
  order.
\<close>

theorem C5_add:
  "(trim s = [] \<longrightarrow> add uuid now s ts = ts) \<and>
   (trim s \<noteq> [] \<longrightarrow>
      add uuid now s ts = \<lparr>id_t = uuid, title = trim s, completed = False, createdAt = now\<rparr> # ts \<and>
      length (add uuid now s ts) = Suc (length ts) \<and>
      tl (add uuid now s ts) = ts)"
  by (simp add: add_eq)

theorem C5_add_witness:
  "trim (js ''   '') = [] \<and> trim (js '''') = [] \<and> trim (js '' Buy milk '') \<noteq> [] \<and>
   add (js ''u2'') (js ''d2'') (js ''   '')
     [\<lparr>id_t = js ''u1'', title = js ''a'', completed = True, createdAt = js ''d1''\<rparr>] =
     [\<lparr>id_t = js ''u1'', title = js ''a'', completed = True, createdAt = js ''d1''\<rparr>] \<and>
   add (js ''u2'') (js ''d2'') (js '' Buy milk '')
     [\<lparr>id_t = js ''u1'', title = js ''a'', completed = True, createdAt = js ''d1''\<rparr>] =
     [\<lparr>id_t = js ''u2'', title = js ''Buy milk'', completed = False, createdAt = js ''d2''\<rparr>,
      \<lparr>id_t = js ''u1'', title = js ''a'', completed = True, createdAt = js ''d1''\<rparr>]"
proof -
  have e: "trim (js ''   '') = []" "trim (js '''') = []"
    by (simp_all add: trim_def js_def isWhiteSpace_def)
  have m: "trim (js '' Buy milk '') = js ''Buy milk''"
    by (simp add: trim_def js_def isWhiteSpace_def)
  have n: "js ''Buy milk'' \<noteq> []"
    by (simp add: js_def)
  show ?thesis
    using C5_add [of "js ''   ''" "js ''u2''" "js ''d2''"
        "[\<lparr>id_t = js ''u1'', title = js ''a'', completed = True, createdAt = js ''d1''\<rparr>]"]
      C5_add [of "js '' Buy milk ''" "js ''u2''" "js ''d2''"
        "[\<lparr>id_t = js ''u1'', title = js ''a'', completed = True, createdAt = js ''d1''\<rparr>]"]
    by (simp add: e m n)
qed

text \<open>
  C6.  \<open>toggle\<close> keeps the length and the order of the list; at every position the task
  with the given id has its \<open>completed\<close> flag negated and every other field as before,
  and a task with another id is as before.  When no task has the id the list is unchanged,
  and toggling twice gives the list back.
\<close>

theorem C6_toggle:
  "length (toggle i ts) = length ts \<and>
   (\<forall>k < length ts.
      toggle i ts ! k =
        (if id_t (ts ! k) = i then (ts ! k)\<lparr>completed := \<not> completed (ts ! k)\<rparr> else ts ! k)) \<and>
   (i \<notin> set (map id_t ts) \<longrightarrow> toggle i ts = ts) \<and>
   toggle i (toggle i ts) = ts"
proof (intro conjI)
  show "length (toggle i ts) = length ts"
    by (simp add: toggle_eq)
  show "\<forall>k < length ts.
      toggle i ts ! k =
        (if id_t (ts ! k) = i then (ts ! k)\<lparr>completed := \<not> completed (ts ! k)\<rparr> else ts ! k)"
    by (simp add: toggle_eq)
  show "i \<notin> set (map id_t ts) \<longrightarrow> toggle i ts = ts"
    by (induction ts) (auto simp: toggle_eq)
  show "toggle i (toggle i ts) = ts"
    by (induction ts) (simp_all add: toggle_eq)
qed

theorem C6_toggle_witness:
  "toggle (js ''b'')
     [\<lparr>id_t = js ''a'', title = js ''x'', completed = False, createdAt = js ''d1''\<rparr>,
      \<lparr>id_t = js ''b'', title = js ''y'', completed = False, createdAt = js ''d2''\<rparr>] ! 1 =
     \<lparr>id_t = js ''b'', title = js ''y'', completed = True, createdAt = js ''d2''\<rparr> \<and>
   toggle (js ''b'')
     [\<lparr>id_t = js ''a'', title = js ''x'', completed = False, createdAt = js ''d1''\<rparr>,
      \<lparr>id_t = js ''b'', title = js ''y'', completed = False, createdAt = js ''d2''\<rparr>] ! 0 =
     \<lparr>id_t = js ''a'', title = js ''x'', completed = False, createdAt = js ''d1''\<rparr> \<and>
   toggle (js ''c'')
     [\<lparr>id_t = js ''a'', title = js ''x'', completed = False, createdAt = js ''d1''\<rparr>,
      \<lparr>id_t = js ''b'', title = js ''y'', completed = False, createdAt = js ''d2''\<rparr>] =
     [\<lparr>id_t = js ''a'', title = js ''x'', completed = False, createdAt = js ''d1''\<rparr>,
      \<lparr>id_t = js ''b'', title = js ''y'', completed = False, createdAt = js ''d2''\<rparr>]"
proof -
  let ?ts = "[\<lparr>id_t = js ''a'', title = js ''x'', completed = False, createdAt = js ''d1''\<rparr>,
      \<lparr>id_t = js ''b'', title = js ''y'', completed = False, createdAt = js ''d2''\<rparr>]"
  have ne: "js ''a'' \<noteq> js ''b''" "js ''c'' \<noteq> js ''a''" "js ''c'' \<noteq> js ''b''"
    by (simp_all add: js_def)
  from C6_toggle [of "js ''b''" ?ts]
  have "\<forall>k < 2. toggle (js ''b'') ?ts ! k =
        (if id_t (?ts ! k) = js ''b'' then (?ts ! k)\<lparr>completed := \<not> completed (?ts ! k)\<rparr>
         else ?ts ! k)"
    by simp
  then have "toggle (js ''b'') ?ts ! 1 =
        (if id_t (?ts ! 1) = js ''b'' then (?ts ! 1)\<lparr>completed := \<not> completed (?ts ! 1)\<rparr>
         else ?ts ! 1)"
    and "toggle (js ''b'') ?ts ! 0 =
        (if id_t (?ts ! 0) = js ''b'' then (?ts ! 0)\<lparr>completed := \<not> completed (?ts ! 0)\<rparr>
         else ?ts ! 0)"
    by simp_all
  moreover from C6_toggle [of "js ''c''" ?ts] have "toggle (js ''c'') ?ts = ?ts"
    using ne by simp
  ultimately show ?thesis
    using ne by simp
qed

text \<open>
  C7.  \<open>rename\<close> trims the new text.  When the trimmed text is empty the list stays as
  it is.  Otherwise the length and order of the list stay, the task with the given id gets
  the trimmed text as its title and keeps its id, \<open>completed\<close> and \<open>createdAt\<close>, and
  every task with another id is as before.  When no task has the id the list is unchanged.
\<close>

theorem C7_rename:
  "(trim s = [] \<longrightarrow> rename i s ts = ts) \<and>
   (trim s \<noteq> [] \<longrightarrow>
      length (rename i s ts) = length ts \<and>
      (\<forall>k < length ts.
         rename i s ts ! k =
           (if id_t (ts ! k) = i then (ts ! k)\<lparr>title := trim s\<rparr> else ts ! k) \<and>
         id_t (rename i s ts ! k) = id_t (ts ! k) \<and>
         completed (rename i s ts ! k) = completed (ts ! k) \<and>
         createdAt (rename i s ts ! k) = createdAt (ts ! k))) \<and>
   (i \<notin> set (map id_t ts) \<longrightarrow> rename i s ts = ts)"
proof (intro conjI)
  show "trim s = [] \<longrightarrow> rename i s ts = ts"
    by (simp add: rename_eq)
  show "trim s \<noteq> [] \<longrightarrow>
      length (rename i s ts) = length ts \<and>
      (\<forall>k < length ts.
         rename i s ts ! k =
           (if id_t (ts ! k) = i then (ts ! k)\<lparr>title := trim s\<rparr> else ts ! k) \<and>
         id_t (rename i s ts ! k) = id_t (ts ! k) \<and>
         completed (rename i s ts ! k) = completed (ts ! k) \<and>
         createdAt (rename i s ts ! k) = createdAt (ts ! k))"
    by (simp add: rename_eq)
  show "i \<notin> set (map id_t ts) \<longrightarrow> rename i s ts = ts"
    by (induction ts) (auto simp: rename_eq)
qed

theorem C7_rename_witness:
  "rename (js ''b'') (js ''  '')
     [\<lparr>id_t = js ''a'', title = js ''x'', completed = False, createdAt = js ''d1''\<rparr>,
      \<lparr>id_t = js ''b'', title = js ''y'', completed = True, createdAt = js ''d2''\<rparr>] =
     [\<lparr>id_t = js ''a'', title = js ''x'', completed = False, createdAt = js ''d1''\<rparr>,
      \<lparr>id_t = js ''b'', title = js ''y'', completed = True, createdAt = js ''d2''\<rparr>] \<and>
   rename (js ''b'') (js '' z '')
     [\<lparr>id_t = js ''a'', title = js ''x'', completed = False, createdAt = js ''d1''\<rparr>,
      \<lparr>id_t = js ''b'', title = js ''y'', completed = True, createdAt = js ''d2''\<rparr>] ! 1 =
     \<lparr>id_t = js ''b'', title = js ''z'', completed = True, createdAt = js ''d2''\<rparr> \<and>
   rename (js ''c'') (js '' z '')
     [\<lparr>id_t = js ''a'', title = js ''x'', completed = False, createdAt = js ''d1''\<rparr>,
      \<lparr>id_t = js ''b'', title = js ''y'', completed = True, createdAt = js ''d2''\<rparr>] =
     [\<lparr>id_t = js ''a'', title = js ''x'', completed = False, createdAt = js ''d1''\<rparr>,
      \<lparr>id_t = js ''b'', title = js ''y'', completed = True, createdAt = js ''d2''\<rparr>]"
proof -
  let ?ts = "[\<lparr>id_t = js ''a'', title = js ''x'', completed = False, createdAt = js ''d1''\<rparr>,
      \<lparr>id_t = js ''b'', title = js ''y'', completed = True, createdAt = js ''d2''\<rparr>]"
  have ne: "js ''a'' \<noteq> js ''b''" "js ''c'' \<noteq> js ''a''" "js ''c'' \<noteq> js ''b''"
    by (simp_all add: js_def)
  have e: "trim (js ''  '') = []"
    by (simp add: trim_def js_def isWhiteSpace_def)
  have z: "trim (js '' z '') = js ''z''" "js ''z'' \<noteq> []"
    by (simp_all add: trim_def js_def isWhiteSpace_def)
  from C7_rename [of "js ''  ''" "js ''b''" ?ts] e
  have 1: "rename (js ''b'') (js ''  '') ?ts = ?ts"
    by simp
  from C7_rename [of "js '' z ''" "js ''b''" ?ts] z
  have "\<forall>k < 2. rename (js ''b'') (js '' z '') ?ts ! k =
           (if id_t (?ts ! k) = js ''b'' then (?ts ! k)\<lparr>title := js ''z''\<rparr> else ?ts ! k)"
    by simp
  then have "rename (js ''b'') (js '' z '') ?ts ! 1 =
           (if id_t (?ts ! 1) = js ''b'' then (?ts ! 1)\<lparr>title := js ''z''\<rparr> else ?ts ! 1)"
    by simp
  then have 2: "rename (js ''b'') (js '' z '') ?ts ! 1 =
      \<lparr>id_t = js ''b'', title = js ''z'', completed = True, createdAt = js ''d2''\<rparr>"
    by simp
  from C7_rename [of "js '' z ''" "js ''c''" ?ts] ne
  have 3: "rename (js ''c'') (js '' z '') ?ts = ?ts"
    by simp
  from 1 2 3 show ?thesis
    by simp
qed

text \<open>
  C8.  \<open>clearCompleted\<close> keeps exactly the tasks whose \<open>completed\<close> flag is false: the
  result is the list of those tasks, each unchanged, in the order they had.  From
  A (completed), B (active), C (completed) it leaves B alone.
\<close>

theorem C8_clearCompleted:
  "clearCompleted ts = filter (\<lambda>t. \<not> completed t) ts \<and>
   subseq (clearCompleted ts) ts \<and>
   set (clearCompleted ts) = {t. t \<in> set ts \<and> \<not> completed t} \<and>
   clearCompleted
     [\<lparr>id_t = js ''A'', title = js ''a'', completed = True, createdAt = js ''d1''\<rparr>,
      \<lparr>id_t = js ''B'', title = js ''b'', completed = False, createdAt = js ''d2''\<rparr>,
      \<lparr>id_t = js ''C'', title = js ''c'', completed = True, createdAt = js ''d3''\<rparr>] =
     [\<lparr>id_t = js ''B'', title = js ''b'', completed = False, createdAt = js ''d2''\<rparr>]"
  by (auto simp: clearCompleted_eq)

text \<open>
  C9.  \<open>filteredTodos\<close> with filter \<open>all\<close> is the list itself; with \<open>active\<close> it is
  the list of the tasks that are not completed and with \<open>completed\<close> the list of those
  that are, both in the order of the list.  The two projections have no task in common and
  together hold every task of the list as often as the list does.
\<close>

theorem C9_filteredTodos:
  "filteredTodos ts All = ts \<and>
   filteredTodos ts Active = filter (\<lambda>t. \<not> completed t) ts \<and>
   filteredTodos ts Completed = filter (\<lambda>t. completed t) ts \<and>
   subseq (filteredTodos ts Active) ts \<and>
   subseq (filteredTodos ts Completed) ts \<and>
   mset (filteredTodos ts Active) + mset (filteredTodos ts Completed) = mset ts \<and>
   set (filteredTodos ts Active) \<union> set (filteredTodos ts Completed) = set ts \<and>
   set (filteredTodos ts Active) \<inter> set (filteredTodos ts Completed) = {}"
proof -
  have "mset (filter (\<lambda>t. \<not> completed t) ts) + mset (filter (\<lambda>t. completed t) ts) = mset ts"
    by (induction ts) simp_all
  then show ?thesis
    by (auto simp: filteredTodos_def)
qed

text \<open>
  C3.  Starting from a list whose ids are pairwise distinct, every finite sequence of
  add, toggle, rename, remove and clearCompleted operations in which each add comes with an
  id that the list does not hold at that moment ends in a list whose ids are pairwise
  distinct.
\<close>

theorem C3_ids_unique:
  "distinct (map id_t ts) \<Longrightarrow> fresh_ids ps ts \<Longrightarrow> distinct (map id_t (run ps ts))"
proof (induction ps arbitrary: ts)
  case Nil
  then show ?case by simp
next
  case (Cons p ps)
  from Cons.prems(2) have f: "fresh_ids [p] ts" "fresh_ids ps (apply_op p ts)"
    by (simp_all add: fresh_ids_Cons)
  from Cons.prems(1) f(1) have "distinct (map id_t (apply_op p ts))"
    by (rule apply_op_distinct)
  then have "distinct (map id_t (run ps (apply_op p ts)))"
    using f(2) by (rule Cons.IH)
  then show ?case by simp
qed

theorem C3_ids_unique_witness:
  "distinct (map id_t ([]::Todo list)) \<and>
   fresh_ids
     [Add (js ''u1'') (js ''d1'') (js ''a''), Add (js ''u2'') (js ''d2'') (js '' b''),
      Toggle (js ''u1''), Rename (js ''u2'') (js ''c''), Add (js ''u3'') (js ''d3'') (js ''d''),
      Remove (js ''u2''), ClearCompleted] [] \<and>
   distinct (map id_t (run
     [Add (js ''u1'') (js ''d1'') (js ''a''), Add (js ''u2'') (js ''d2'') (js '' b''),
      Toggle (js ''u1''), Rename (js ''u2'') (js ''c''), Add (js ''u3'') (js ''d3'') (js ''d''),
      Remove (js ''u2''), ClearCompleted] []))"
proof -
  let ?ps = "[Add (js ''u1'') (js ''d1'') (js ''a''), Add (js ''u2'') (js ''d2'') (js '' b''),
      Toggle (js ''u1''), Rename (js ''u2'') (js ''c''), Add (js ''u3'') (js ''d3'') (js ''d''),
      Remove (js ''u2''), ClearCompleted]"
  have d: "distinct (map id_t ([]::Todo list))"
    by simp
  have f: "fresh_ids ?ps []"
    by (simp add: add_eq toggle_eq rename_eq remove_eq trim_def js_def isWhiteSpace_def)
  from C3_ids_unique [OF d f] d f show ?thesis
    by simp
qed

lemma map_of_replace_same:
  "k \<in> fst ` set obj \<Longrightarrow>
   map_of (map (\<lambda>(k', v'). if k' = k then (k', v) else (k', v')) obj) k = Some v"
  by (induction obj) auto

lemma map_of_insert_index_same:
  "k \<notin> fst ` set obj \<Longrightarrow> map_of (insert_index n k v obj) k = Some v"
  by (induction obj) (auto split: option.splits)

lemma map_of_snoc_same: "k \<notin> fst ` set obj \<Longrightarrow> map_of (obj @ [(k, v)]) k = Some v"
  by (induction obj) auto

lemma map_of_set_prop_same: "map_of (set_prop k v obj) k = Some v"
  by (simp add: set_prop_def map_of_replace_same map_of_insert_index_same map_of_snoc_same
      del: map_of_append split: option.splits)

lemma completed_not_index: "array_index (js ''completed'') = None"
  by (simp add: array_index_def js_def isDigit_def)

lemma set_prop_completed_absent:
  "map_of kvs (js ''completed'') = None \<Longrightarrow>
   set_prop (js ''completed'') v kvs = kvs @ [(js ''completed'', v)]"
  by (simp add: set_prop_def completed_not_index map_of_eq_None_iff)

lemma map_throw_coerce:
  "JNull \<notin> set vs \<Longrightarrow>
   map_throw coerce_completed vs =
     Inr (map (\<lambda>t. set_prop (js ''completed'') (JBool (ToBoolean (get_completed t)))
                  (own_props t)) vs)"
  by (induction vs) (auto simp: coerce_completed_def)

lemma map_throw_coerce_null:
  "JNull \<in> set vs \<Longrightarrow> map_throw coerce_completed vs = Inl TypeError"
  by (induction vs) (auto simp: coerce_completed_def split: sum.splits)

lemma JSON_parse_empty: "JSON_parse [] = Inl SyntaxError"
  by (simp add: JSON_parse_def skip_ws_def)

lemma load_array:
  assumes "getCookie COOKIE_NAME now jar = Inr (Some raw)" and "JSON_parse raw = Inr (JArr vs)"
  shows "loadTodosFromCookie now jar =
     (if JNull \<in> set vs then []
      else map (\<lambda>t. set_prop (js ''completed'') (JBool (ToBoolean (get_completed t)))
                  (own_props t)) vs)"
proof -
  from assms(2) have "raw \<noteq> []"
    by (auto simp: JSON_parse_empty)
  with assms show ?thesis
    by (simp add: loadTodosFromCookie_def load_try_def map_throw_coerce map_throw_coerce_null)
qed

lemma load_not_array:
  assumes "getCookie COOKIE_NAME now jar = Inr (Some raw)" and "JSON_parse raw = Inr v"
    and "\<forall>vs. v \<noteq> JArr vs"
  shows "loadTodosFromCookie now jar = []"
  using assms by (cases v) (simp_all add: loadTodosFromCookie_def load_try_def)

section \<open>Loading\<close>

text \<open>
  C1 (as the code has it).  \<open>loadTodosFromCookie\<close> never throws: whatever the body of
  its \<open>try\<close> throws, the result is the empty list.  The result is the empty list when
  the cookie is absent, when its text is empty or is not JSON, when the JSON value is not an
  array, and when an element of the array is \<open>null\<close>.  In every other case the result
  has one record for each element of the array, whatever the element is (its shape is not
  looked at), and in each record \<open>completed\<close> is a boolean, the truth value of the
  element's \<open>completed\<close>; a record without \<open>completed\<close> is returned with
  \<open>completed\<close> false added to its fields.
\<close>

theorem C1_load:
  "(load_try now jar = Inl e \<longrightarrow> loadTodosFromCookie now jar = []) \<and>
   (getCookie COOKIE_NAME now jar = Inr None \<longrightarrow> loadTodosFromCookie now jar = []) \<and>
   (getCookie COOKIE_NAME now jar = Inr (Some []) \<longrightarrow> loadTodosFromCookie now jar = []) \<and>
   (getCookie COOKIE_NAME now jar = Inr (Some raw) \<and> JSON_parse raw = Inl e \<longrightarrow>
      loadTodosFromCookie now jar = []) \<and>
   (getCookie COOKIE_NAME now jar = Inr (Some raw) \<and> JSON_parse raw = Inr v \<and>
      (\<forall>vs. v \<noteq> JArr vs) \<longrightarrow>
      loadTodosFromCookie now jar = []) \<and>
   (getCookie COOKIE_NAME now jar = Inr (Some raw) \<and> JSON_parse raw = Inr (JArr vs) \<and>
      JNull \<in> set vs \<longrightarrow>
      loadTodosFromCookie now jar = []) \<and>
   (getCookie COOKIE_NAME now jar = Inr (Some raw) \<and> JSON_parse raw = Inr (JArr vs) \<and>
      JNull \<notin> set vs \<longrightarrow>
      length (loadTodosFromCookie now jar) = length vs \<and>
      (\<forall>i < length vs.
         map_of (loadTodosFromCookie now jar ! i) (js ''completed'') =
           Some (JBool (ToBoolean (get_completed (vs ! i)))) \<and>
         (\<forall>kvs. vs ! i = JObj kvs \<and> map_of kvs (js ''completed'') = None \<longrightarrow>
            loadTodosFromCookie now jar ! i = kvs @ [(js ''completed'', JBool False)])))"
proof (intro conjI impI)
  assume "load_try now jar = Inl e"
  then show "loadTodosFromCookie now jar = []"
    by (simp add: loadTodosFromCookie_def)
next
  assume "getCookie COOKIE_NAME now jar = Inr None"
  then show "loadTodosFromCookie now jar = []"
    by (simp add: loadTodosFromCookie_def load_try_def)
next
  assume "getCookie COOKIE_NAME now jar = Inr (Some [])"
  then show "loadTodosFromCookie now jar = []"
    by (simp add: loadTodosFromCookie_def load_try_def)
next
  assume "getCookie COOKIE_NAME now jar = Inr (Some raw) \<and> JSON_parse raw = Inl e"
  then show "loadTodosFromCookie now jar = []"
    by (simp add: loadTodosFromCookie_def load_try_def)
next
  assume "getCookie COOKIE_NAME now jar = Inr (Some raw) \<and> JSON_parse raw = Inr v \<and>
      (\<forall>vs. v \<noteq> JArr vs)"
  then show "loadTodosFromCookie now jar = []"
    by (simp add: load_not_array)
next
  assume "getCookie COOKIE_NAME now jar = Inr (Some raw) \<and> JSON_parse raw = Inr (JArr vs) \<and>
      JNull \<in> set vs"
  then show "loadTodosFromCookie now jar = []"
    by (simp add: load_array)
next
  assume a: "getCookie COOKIE_NAME now jar = Inr (Some raw) \<and> JSON_parse raw = Inr (JArr vs) \<and>
      JNull \<notin> set vs"
  then have l: "loadTodosFromCookie now jar =
      map (\<lambda>t. set_prop (js ''completed'') (JBool (ToBoolean (get_completed t)))
                  (own_props t)) vs"
    by (simp add: load_array)
  show "length (loadTodosFromCookie now jar) = length vs"
    by (simp add: l)
  show "\<forall>i < length vs.
         map_of (loadTodosFromCookie now jar ! i) (js ''completed'') =
           Some (JBool (ToBoolean (get_completed (vs ! i)))) \<and>
         (\<forall>kvs. vs ! i = JObj kvs \<and> map_of kvs (js ''completed'') = None \<longrightarrow>
            loadTodosFromCookie now jar ! i = kvs @ [(js ''completed'', JBool False)])"
    by (simp add: l map_of_set_prop_same set_prop_completed_absent get_completed_def
        own_props_def ToBoolean_def)
qed

theorem C1_load_witness:
  "loadTodosFromCookie 0 [] = [] \<and>
   getCookie COOKIE_NAME 0 [\<lparr>cname = COOKIE_NAME, cvalue = js ''%'', cdomain = None, cpath = js ''/'', expiry = 1\<rparr>] =
     Inl URIError \<and>
   loadTodosFromCookie 0 [\<lparr>cname = COOKIE_NAME, cvalue = js ''%'', cdomain = None, cpath = js ''/'', expiry = 1\<rparr>] = [] \<and>
   getCookie COOKIE_NAME 0 [\<lparr>cname = COOKIE_NAME, cvalue = js ''not%20json'', cdomain = None, cpath = js ''/'', expiry = 1\<rparr>] =
     Inr (Some (js ''not json'')) \<and>
   loadTodosFromCookie 0 [\<lparr>cname = COOKIE_NAME, cvalue = js ''not%20json'', cdomain = None, cpath = js ''/'', expiry = 1\<rparr>] = [] \<and>
   getCookie COOKIE_NAME 0 [\<lparr>cname = COOKIE_NAME, cvalue = js ''%7B%7D'', cdomain = None, cpath = js ''/'', expiry = 1\<rparr>] =
     Inr (Some (js ''{}'')) \<and>
   loadTodosFromCookie 0 [\<lparr>cname = COOKIE_NAME, cvalue = js ''%7B%7D'', cdomain = None, cpath = js ''/'', expiry = 1\<rparr>] = [] \<and>
   loadTodosFromCookie 0 [\<lparr>cname = COOKIE_NAME, cvalue = js ''[null]'', cdomain = None, cpath = js ''/'', expiry = 1\<rparr>] = [] \<and>
   getCookie COOKIE_NAME 0
     [\<lparr>cname = COOKIE_NAME,
       cvalue = js ''%5B%7B%22id%22%3A%221%22%2C%22title%22%3A%22x%22%7D%5D'', cdomain = None, cpath = js ''/'', expiry = 1\<rparr>] =
     Inr (Some (js ''[{\"id\":\"1\",\"title\":\"x\"}]'')) \<and>
   loadTodosFromCookie 0
     [\<lparr>cname = COOKIE_NAME,
       cvalue = js ''%5B%7B%22id%22%3A%221%22%2C%22title%22%3A%22x%22%7D%5D'', cdomain = None, cpath = js ''/'', expiry = 1\<rparr>] ! 0 =
     [(js ''id'', JStr (js ''1'')), (js ''title'', JStr (js ''x'')), (js ''completed'', JBool False)]"
proof -
  let ?j1 = "[\<lparr>cname = COOKIE_NAME, cvalue = js ''%'', cdomain = None, cpath = js ''/'', expiry = 1\<rparr>]"
  let ?j2 = "[\<lparr>cname = COOKIE_NAME, cvalue = js ''not%20json'', cdomain = None, cpath = js ''/'', expiry = 1\<rparr>]"
  let ?j3 = "[\<lparr>cname = COOKIE_NAME, cvalue = js ''%7B%7D'', cdomain = None, cpath = js ''/'', expiry = 1\<rparr>]"
  let ?j4 = "[\<lparr>cname = COOKIE_NAME, cvalue = js ''[null]'', cdomain = None, cpath = js ''/'', expiry = 1\<rparr>]"
  let ?j5 = "[\<lparr>cname = COOKIE_NAME,
       cvalue = js ''%5B%7B%22id%22%3A%221%22%2C%22title%22%3A%22x%22%7D%5D'', cdomain = None, cpath = js ''/'', expiry = 1\<rparr>]"
  let ?kvs = "[(js ''id'', JStr (js ''1'')), (js ''title'', JStr (js ''x''))]"
  have g0: "getCookie COOKIE_NAME 0 [] = Inr None"
    by code_simp
  have g1: "getCookie COOKIE_NAME 0 ?j1 = Inl URIError"
    by code_simp
  then have t1: "load_try 0 ?j1 = Inl URIError"
    by (simp add: load_try_def)
  have g2: "getCookie COOKIE_NAME 0 ?j2 = Inr (Some (js ''not json''))"
    by code_simp
  have p2: "JSON_parse (js ''not json'') = Inl SyntaxError"
    by code_simp
  have g3: "getCookie COOKIE_NAME 0 ?j3 = Inr (Some (js ''{}''))"
    by code_simp
  have p3: "JSON_parse (js ''{}'') = Inr (JObj [])"
    by code_simp
  have g4: "getCookie COOKIE_NAME 0 ?j4 = Inr (Some (js ''[null]''))"
    by code_simp
  have p4: "JSON_parse (js ''[null]'') = Inr (JArr [JNull])"
    by code_simp
  have g5: "getCookie COOKIE_NAME 0 ?j5 = Inr (Some (js ''[{\"id\":\"1\",\"title\":\"x\"}]''))"
    by code_simp
  have p5: "JSON_parse (js ''[{\"id\":\"1\",\"title\":\"x\"}]'') = Inr (JArr [JObj ?kvs])"
    by code_simp
  have m5: "map_of ?kvs (js ''completed'') = None"
    by code_simp
  have r0: "loadTodosFromCookie 0 [] = []"
    using C1_load [of 0 "[]"] g0 by simp
  have r1: "loadTodosFromCookie 0 ?j1 = []"
    using C1_load [of 0 ?j1 URIError] t1 by simp
  have r2: "loadTodosFromCookie 0 ?j2 = []"
    using C1_load [of 0 ?j2 SyntaxError "js ''not json''"] g2 p2 by simp
  have r3: "loadTodosFromCookie 0 ?j3 = []"
    using C1_load [of 0 ?j3 _ "js ''{}''" "JObj []"] g3 p3 by simp
  have r4: "loadTodosFromCookie 0 ?j4 = []"
    using C1_load [of 0 ?j4 _ "js ''[null]''" _ "[JNull]"] g4 p4 by simp
  have r5: "loadTodosFromCookie 0 ?j5 ! 0 = ?kvs @ [(js ''completed'', JBool False)]"
    using C1_load [of 0 ?j5 _ "js ''[{\"id\":\"1\",\"title\":\"x\"}]''" _ "[JObj ?kvs]"] g5 p5 m5
    by simp
  from r0 g1 r1 g2 r2 g3 r3 r4 g5 r5 show ?thesis
    by simp
qed

theorem C1_load_counterexample:
  "getCookie COOKIE_NAME 0 [\<lparr>cname = COOKIE_NAME, cvalue = js ''%5B1%5D'', cdomain = None, cpath = js ''/'', expiry = 1\<rparr>] =
     Inr (Some (js ''[1]'')) \<and>
   JSON_parse (js ''[1]'') = Inr (JArr [JNum 1 0]) \<and>
   loadTodosFromCookie 0 [\<lparr>cname = COOKIE_NAME, cvalue = js ''%5B1%5D'', cdomain = None, cpath = js ''/'', expiry = 1\<rparr>] =
     [[(js ''completed'', JBool False)]] \<and>
   loadTodosFromCookie 0 [\<lparr>cname = COOKIE_NAME, cvalue = js ''%5B1%5D'', cdomain = None, cpath = js ''/'', expiry = 1\<rparr>] \<noteq> []"
  by code_simp

lemma titles_ok_apply_op: "titles_ok ts \<Longrightarrow> titles_ok (apply_op p ts)"
proof (cases p)
  case (Add uuid now s)
  then show "titles_ok ts \<Longrightarrow> titles_ok (apply_op p ts)"
    by (simp add: add_eq titles_ok_def trim_not_blank)
next
  case (Toggle i)
  then show "titles_ok ts \<Longrightarrow> titles_ok (apply_op p ts)"
    by (auto simp: toggle_eq titles_ok_def list_all_iff)
next
  case (Rename i s)
  then show "titles_ok ts \<Longrightarrow> titles_ok (apply_op p ts)"
    by (auto simp: rename_eq titles_ok_def list_all_iff trim_not_blank)
next
  case (Remove i)
  then show "titles_ok ts \<Longrightarrow> titles_ok (apply_op p ts)"
    by (simp add: remove_eq titles_ok_def list_all_iff)
next
  case ClearCompleted
  then show "titles_ok ts \<Longrightarrow> titles_ok (apply_op p ts)"
    by (simp add: clearCompleted_eq titles_ok_def list_all_iff)
qed

text \<open>
  C4 (as the code has it).  \<open>add\<close> and \<open>rename\<close> trim the text and do nothing when
  the trimmed text is empty, so no operation of the task store puts an empty or
  white-space-only title into the list: from a list in which no title is blank (the empty
  list, say), every sequence of add, toggle, rename, remove and clearCompleted operations
  ends in a list in which no title is blank.  Nothing is said of the records that
  \<open>loadTodosFromCookie\<close> returns: their titles are not checked.
\<close>

theorem C4_titles:
  "titles_ok ts \<Longrightarrow> titles_ok (run ps ts)"
proof (induction ps arbitrary: ts)
  case Nil
  then show ?case by simp
next
  case (Cons p ps)
  from Cons.prems have "titles_ok (apply_op p ts)"
    by (rule titles_ok_apply_op)
  then have "titles_ok (run ps (apply_op p ts))"
    by (rule Cons.IH)
  then show ?case by simp
qed

theorem C4_titles_witness:
  "titles_ok [] \<and>
   run [Add (js ''u1'') (js ''d1'') (js '' a ''), Add (js ''u2'') (js ''d2'') (js ''   ''),
        Rename (js ''u1'') (js ''  ''), Rename (js ''u1'') (js ''b ''), Toggle (js ''u1'')] [] =
     [\<lparr>id_t = js ''u1'', title = js ''b'', completed = True, createdAt = js ''d1''\<rparr>] \<and>
   titles_ok
     (run [Add (js ''u1'') (js ''d1'') (js '' a ''), Add (js ''u2'') (js ''d2'') (js ''   ''),
        Rename (js ''u1'') (js ''  ''), Rename (js ''u1'') (js ''b ''), Toggle (js ''u1'')] [])"
proof -
  let ?ps = "[Add (js ''u1'') (js ''d1'') (js '' a ''), Add (js ''u2'') (js ''d2'') (js ''   ''),
        Rename (js ''u1'') (js ''  ''), Rename (js ''u1'') (js ''b ''), Toggle (js ''u1'')]"
  have e: "titles_ok []"
    by (simp add: titles_ok_def)
  have r: "run ?ps [] =
     [\<lparr>id_t = js ''u1'', title = js ''b'', completed = True, createdAt = js ''d1''\<rparr>]"
    by (simp add: add_eq toggle_eq rename_eq trim_def js_def isWhiteSpace_def)
  from C4_titles [OF e, of ?ps] e r show ?thesis
    by simp
qed

text \<open>
  A cookie that holds a record with the empty title: \<open>loadTodosFromCookie\<close> returns the
  record with its empty title.
\<close>

theorem C4_titles_counterexample:
  "getCookie COOKIE_NAME 0
     [\<lparr>cname = COOKIE_NAME,
       cvalue = js ''%5B%7B%22id%22%3A%221%22%2C%22title%22%3A%22%22%2C%22completed%22%3Afalse%2C%22createdAt%22%3A%22d%22%7D%5D'',
       cdomain = None, cpath = js ''/'', expiry = 1\<rparr>] =
     Inr (Some (js ''[{\"id\":\"1\",\"title\":\"\",\"completed\":false,\"createdAt\":\"d\"}]'')) \<and>
   loadTodosFromCookie 0
     [\<lparr>cname = COOKIE_NAME,
       cvalue = js ''%5B%7B%22id%22%3A%221%22%2C%22title%22%3A%22%22%2C%22completed%22%3Afalse%2C%22createdAt%22%3A%22d%22%7D%5D'',
       cdomain = None, cpath = js ''/'', expiry = 1\<rparr>] =
     map todo_obj [\<lparr>id_t = js ''1'', title = js '''', completed = False, createdAt = js ''d''\<rparr>] \<and>
   \<not> titles_ok [\<lparr>id_t = js ''1'', title = js '''', completed = False, createdAt = js ''d''\<rparr>]"
  by code_simp

text \<open>
  C10.  \<open>toggle\<close> and \<open>rename\<close> change every task that has the given id, not the
  first one only: at every position of the list where the id matches, \<open>toggle\<close> negates
  \<open>completed\<close> and \<open>rename\<close> (with a text that is not empty after trimming) replaces
  the title.  Lists with a repeated id are reachable: \<open>loadTodosFromCookie\<close> returns the
  records of the cookie without comparing their ids.
\<close>

theorem C10_duplicates:
  "(\<forall>k < length ts. id_t (ts ! k) = i \<longrightarrow>
      toggle i ts ! k = (ts ! k)\<lparr>completed := \<not> completed (ts ! k)\<rparr>) \<and>
   (trim s \<noteq> [] \<longrightarrow>
      (\<forall>k < length ts. id_t (ts ! k) = i \<longrightarrow> rename i s ts ! k = (ts ! k)\<lparr>title := trim s\<rparr>)) \<and>
   loadTodosFromCookie 0
     [\<lparr>cname = COOKIE_NAME,
       cvalue = js ''[{\"id\":\"1\",\"title\":\"a\",\"completed\":false,\"createdAt\":\"d\"},{\"id\":\"1\",\"title\":\"b\",\"completed\":true,\"createdAt\":\"e\"}]'',
       cdomain = None, cpath = js ''/'', expiry = 1\<rparr>] =
     map todo_obj
       [\<lparr>id_t = js ''1'', title = js ''a'', completed = False, createdAt = js ''d''\<rparr>,
        \<lparr>id_t = js ''1'', title = js ''b'', completed = True, createdAt = js ''e''\<rparr>]"
proof (intro conjI)
  show "\<forall>k < length ts. id_t (ts ! k) = i \<longrightarrow>
      toggle i ts ! k = (ts ! k)\<lparr>completed := \<not> completed (ts ! k)\<rparr>"
    by (simp add: toggle_eq)
  show "trim s \<noteq> [] \<longrightarrow>
      (\<forall>k < length ts. id_t (ts ! k) = i \<longrightarrow> rename i s ts ! k = (ts ! k)\<lparr>title := trim s\<rparr>)"
    by (simp add: rename_eq)
  show "loadTodosFromCookie 0
     [\<lparr>cname = COOKIE_NAME,
       cvalue = js ''[{\"id\":\"1\",\"title\":\"a\",\"completed\":false,\"createdAt\":\"d\"},{\"id\":\"1\",\"title\":\"b\",\"completed\":true,\"createdAt\":\"e\"}]'',
       cdomain = None, cpath = js ''/'', expiry = 1\<rparr>] =
     map todo_obj
       [\<lparr>id_t = js ''1'', title = js ''a'', completed = False, createdAt = js ''d''\<rparr>,
        \<lparr>id_t = js ''1'', title = js ''b'', completed = True, createdAt = js ''e''\<rparr>]"
    by code_simp
qed

theorem C10_duplicates_witness:
  "toggle (js ''1'')
     [\<lparr>id_t = js ''1'', title = js ''a'', completed = False, createdAt = js ''d''\<rparr>,
      \<lparr>id_t = js ''1'', title = js ''b'', completed = True, createdAt = js ''e''\<rparr>] ! 0 =
     \<lparr>id_t = js ''1'', title = js ''a'', completed = True, createdAt = js ''d''\<rparr> \<and>
   toggle (js ''1'')
     [\<lparr>id_t = js ''1'', title = js ''a'', completed = False, createdAt = js ''d''\<rparr>,
      \<lparr>id_t = js ''1'', title = js ''b'', completed = True, createdAt = js ''e''\<rparr>] ! 1 =
     \<lparr>id_t = js ''1'', title = js ''b'', completed = False, createdAt = js ''e''\<rparr> \<and>
   rename (js ''1'') (js '' z'')
     [\<lparr>id_t = js ''1'', title = js ''a'', completed = False, createdAt = js ''d''\<rparr>,
      \<lparr>id_t = js ''1'', title = js ''b'', completed = True, createdAt = js ''e''\<rparr>] ! 0 =
     \<lparr>id_t = js ''1'', title = js ''z'', completed = False, createdAt = js ''d''\<rparr> \<and>
   rename (js ''1'') (js '' z'')
     [\<lparr>id_t = js ''1'', title = js ''a'', completed = False, createdAt = js ''d''\<rparr>,
      \<lparr>id_t = js ''1'', title = js ''b'', completed = True, createdAt = js ''e''\<rparr>] ! 1 =
     \<lparr>id_t = js ''1'', title = js ''z'', completed = True, createdAt = js ''e''\<rparr>"
proof -
  let ?ts = "[\<lparr>id_t = js ''1'', title = js ''a'', completed = False, createdAt = js ''d''\<rparr>,
      \<lparr>id_t = js ''1'', title = js ''b'', completed = True, createdAt = js ''e''\<rparr>]"
  have z: "trim (js '' z'') = js ''z''" "js ''z'' \<noteq> []"
    by (simp_all add: trim_def js_def isWhiteSpace_def)
  note th = C10_duplicates [of ?ts "js ''1''" "js '' z''"]
  have "toggle (js ''1'') ?ts ! 0 = (?ts ! 0)\<lparr>completed := \<not> completed (?ts ! 0)\<rparr>"
    using th [THEN conjunct1, rule_format, of 0] by simp
  moreover have "toggle (js ''1'') ?ts ! 1 = (?ts ! 1)\<lparr>completed := \<not> completed (?ts ! 1)\<rparr>"
    using th [THEN conjunct1, rule_format, of 1] by simp
  moreover have "rename (js ''1'') (js '' z'') ?ts ! 0 = (?ts ! 0)\<lparr>title := js ''z''\<rparr>"
    using th [THEN conjunct2, THEN conjunct1, rule_format, of 0] z by simp
  moreover have "rename (js ''1'') (js '' z'') ?ts ! 1 = (?ts ! 1)\<lparr>title := js ''z''\<rparr>"
    using th [THEN conjunct2, THEN conjunct1, rule_format, of 1] z by simp
  ultimately show ?thesis
    by simp
qed

section \<open>JSON text of a task list is read back\<close>































section \<open>Percent-encoded text is decoded back\<close>




















section \<open>The JSON text of a task list can be percent-encoded\<close>

















section \<open>The cookie that is written is the cookie that is read\<close>

















lemma store_cookie_others:
  "x \<in> set (store_cookie renews c jar) \<Longrightarrow> x = c \<or> (x \<in> set jar \<and> \<not> same_cookie c x)"
proof (cases "find (same_cookie c) jar")
  case None
  then have "\<forall>y \<in> set jar. \<not> same_cookie c y"
    by (simp add: find_None_iff)
  moreover assume "x \<in> set (store_cookie renews c jar)"
  ultimately show ?thesis
    using None by (auto simp: store_cookie_def)
next
  case (Some old)
  assume "x \<in> set (store_cookie renews c jar)"
  with Some show ?thesis
    by (auto simp: store_cookie_def split: if_splits)
qed

lemma store_cookie_jar_ok:
  assumes "jar_ok jar" and "0x3B \<notin> set (cookie_text c)"
  shows "jar_ok (store_cookie renews c jar)"
proof -
  have "0x3B \<notin> set (cookie_text x)" if "x \<in> set (store_cookie renews c jar)" for x
    using store_cookie_others [OF that] assms by (auto simp: jar_ok_def list_all_iff)
  then show ?thesis
    by (simp add: jar_ok_def list_all_iff)
qed

lemma set_tl_subset: "set (tl xs) \<subseteq> set xs"
  by (cases xs) auto

lemma set_strip_wsp: "set (strip_wsp s) \<subseteq> set s"
proof -
  have "set (dropWhile isWSP (rev (dropWhile isWSP s))) \<subseteq> set (rev (dropWhile isWSP s))"
    by (auto dest: set_dropWhileD)
  also have "\<dots> \<subseteq> set s"
    by (auto dest: set_dropWhileD)
  finally show ?thesis
    by (simp add: strip_wsp_def)
qed

text \<open>Whatever is assigned to \<open>document.cookie\<close>, no cookie of the jar gets a \<open>;\<close>.\<close>

lemma assign_jar_ok:
  assumes "jar_ok jar"
  shows "jar_ok (document_cookie_assign renews pair path expires now jar)"
proof -
  let ?p = "takeWhile (\<lambda>c. c \<noteq> 0x3B) pair"
  let ?n = "if 0x3D \<in> set ?p then strip_wsp (takeWhile (\<lambda>c. c \<noteq> 0x3D) ?p) else []"
  let ?v = "if 0x3D \<in> set ?p then strip_wsp (tl (dropWhile (\<lambda>c. c \<noteq> 0x3D) ?p)) else strip_wsp ?p"
  let ?c = "\<lparr>cname = ?n, cvalue = ?v, cdomain = None, cpath = path, expiry = expires\<rparr>"
  have p: "0x3B \<notin> set ?p"
    by (auto dest: set_takeWhileD)
  have "set (takeWhile (\<lambda>c. c \<noteq> 0x3D) ?p) \<subseteq> set ?p"
    by (auto dest: set_takeWhileD)
  with p set_strip_wsp [of "takeWhile (\<lambda>c. c \<noteq> 0x3D) ?p"] have n: "0x3B \<notin> set ?n"
    by auto
  have "set (tl (dropWhile (\<lambda>c. c \<noteq> 0x3D) ?p)) \<subseteq> set (dropWhile (\<lambda>c. c \<noteq> 0x3D) ?p)"
    by (rule set_tl_subset)
  also have "\<dots> \<subseteq> set ?p"
    by (auto dest: set_dropWhileD)
  finally have "set (tl (dropWhile (\<lambda>c. c \<noteq> 0x3D) ?p)) \<subseteq> set ?p" .
  with p set_strip_wsp [of "tl (dropWhile (\<lambda>c. c \<noteq> 0x3D) ?p)"] set_strip_wsp [of ?p]
  have v: "0x3B \<notin> set ?v"
    by auto
  from n v have t: "0x3B \<notin> set (cookie_text ?c)"
    by (simp add: cookie_text_def js_def)
  have f: "jar_ok (filter (\<lambda>x. \<not> same_cookie ?c x) jar)"
    using assms by (simp add: jar_ok_def list_all_iff)
  from assms t have s: "jar_ok (store_cookie renews ?c jar)"
    by (rule store_cookie_jar_ok)
  from assms f s show ?thesis
    by (simp add: document_cookie_assign_def Let_def)
qed






section \<open>Saving and loading\<close>














end
